theory Spec2Isabelle
  imports Complex_Main
begin

section \<open>JavaScript values\<close>

text \<open>
  A JavaScript number is an IEEE double. \<open>Fin q\<close> stands for the finite double of value
  \<open>q\<close>; the model computes with the exact rational, which has the sign of the rounded
  double result (a difference of two finite doubles is zero only when they are equal, and
  overflow keeps the sign), and the sign is all that sorting reads.
\<close>

datatype jsnum = NaN | NegInf | Fin rat | PosInf

datatype strategy = Parallel | Race | Fallback

text \<open>
  \<open>Obj ps\<close> is a plain object with the own enumerable properties \<open>ps\<close>, in the order in
  which \<open>Object.keys\<close> enumerates them. \<open>Arr xs ps\<close> is the array of the elements \<open>xs\<close> and
  \<open>RegExp s ps\<close> the regular expression of source \<open>s\<close>, each with the further own
  properties \<open>ps\<close> that were assigned to it. \<open>Fun i n ps\<close> is the function with identity
  \<open>i\<close>, own \<open>name\<close> property \<open>n\<close> and further own properties \<open>ps\<close>. \<open>Composite s fns\<close> is
  the closure \<open>composite\<close> that \<open>middleware(requestory, fns)\<close> returns, for the requestory
  of strategy \<open>s\<close> and the filtered list.
\<close>

datatype jsval =
    Undefined
  | Null
  | Bool bool
  | Num jsnum
  | Str string
  | Arr "jsval list" "(string \<times> jsval) list"
  | Obj "(string \<times> jsval) list"
  | RegExp string "(string \<times> jsval) list"
  | Fun nat string "(string \<times> jsval) list"
  | Composite strategy "jsval list"

datatype error = TypeError string | Error string | Thrown jsval

fun truthy :: "jsval \<Rightarrow> bool" where
  "truthy Undefined = False"
| "truthy Null = False"
| "truthy (Bool b) = b"
| "truthy (Num NaN) = False"
| "truthy (Num (Fin q)) = (q \<noteq> 0)"
| "truthy (Num _) = True"
| "truthy (Str s) = (s \<noteq> [])"
| "truthy _ = True"

text \<open>The predicates of core-util-is that the source calls through \<open>thing\<close>.\<close>

fun isObject :: "jsval \<Rightarrow> bool" where
  "isObject (Obj _) = True"
| "isObject (Arr _ _) = True"
| "isObject (RegExp _ _) = True"
| "isObject _ = False"

fun isFunction :: "jsval \<Rightarrow> bool" where
  "isFunction (Fun _ _ _) = True"
| "isFunction (Composite _ _) = True"
| "isFunction _ = False"

fun isArray :: "jsval \<Rightarrow> bool" where
  "isArray (Arr _ _) = True"
| "isArray _ = False"

fun isString :: "jsval \<Rightarrow> bool" where
  "isString (Str _) = True"
| "isString _ = False"

fun isRegExp :: "jsval \<Rightarrow> bool" where
  "isRegExp (RegExp _ _) = True"
| "isRegExp _ = False"

fun isNumber :: "jsval \<Rightarrow> bool" where
  "isNumber (Num _) = True"
| "isNumber _ = False"

fun nullish :: "jsval \<Rightarrow> bool" where
  "nullish Undefined = True"
| "nullish Null = True"
| "nullish _ = False"

text \<open>
  \<open>getp v k\<close> is the property read \<open>v.k\<close> for a key that the source writes out
  (\<open>enabled\<close>, \<open>name\<close>, \<open>priority\<close>, \<open>parallel\<close>, \<open>race\<close>, \<open>fallback\<close>, \<open>module\<close>, \<open>route\<close>,
  \<open>method\<close>, \<open>factory\<close>, \<open>arguments\<close>, \<open>default\<close>) on a value that is neither \<open>null\<close> nor
  \<open>undefined\<close> (there the read throws; each caller below that can meet such a value
  checks \<open>nullish\<close> first). None of these keys is a member of a built-in prototype, so the
  own properties decide; the read under a key that the configuration chooses is \<open>member\<close>
  below. \<open>has v k\<close> is \<open>k in v\<close> for such a key on an object.
\<close>

fun props :: "jsval \<Rightarrow> (string \<times> jsval) list" where
  "props (Obj ps) = ps"
| "props (Arr xs ps) = ps"
| "props (RegExp s ps) = ps"
| "props (Fun i n ps) = ps @ [(''name'', Str n)]"
| "props _ = []"

definition getp :: "jsval \<Rightarrow> string \<Rightarrow> jsval" where
  "getp v k = (case map_of (props v) k of Some x \<Rightarrow> x | None \<Rightarrow> Undefined)"

definition has :: "jsval \<Rightarrow> string \<Rightarrow> bool" where
  "has v k = (map_of (props v) k \<noteq> None)"

text \<open>\<open>set_prop v k x\<close> is the assignment \<open>v.k = x\<close> on an object: an existing key keeps
  its place in the enumeration order, a new key goes last.\<close>

fun upd :: "(string \<times> jsval) list \<Rightarrow> string \<Rightarrow> jsval \<Rightarrow> (string \<times> jsval) list" where
  "upd [] k x = [(k, x)]"
| "upd ((k', v) # ps) k x = (if k' = k then (k, x) # ps else (k', v) # upd ps k x)"

fun set_prop :: "jsval \<Rightarrow> string \<Rightarrow> jsval \<Rightarrow> jsval" where
  "set_prop (Obj ps) k x = Obj (upd ps k x)"
| "set_prop (Arr xs ps) k x = Arr xs (upd ps k x)"
| "set_prop (RegExp s ps) k x = RegExp s (upd ps k x)"
| "set_prop v k x = v"

text \<open>The decimal digits of an array index, as \<open>Object.keys\<close> gives it for an array.\<close>

fun digits :: "nat \<Rightarrow> nat \<Rightarrow> string" where
  "digits 0 n = []"
| "digits (Suc fuel) n =
     (if n < 10 then [char_of (48 + n)]
      else digits fuel (n div 10) @ [char_of (48 + n mod 10)])"

definition index_key :: "nat \<Rightarrow> string" where
  "index_key n = digits (Suc n) n"

text \<open>The entries of a mapping, key and value, as \<open>Object.keys\<close> enumerates them: of a
  plain object its properties, of an array its elements under their indices and then
  its further properties. A value that is neither is no mapping and has no entries
  here.\<close>

fun entries :: "jsval \<Rightarrow> (string \<times> jsval) list" where
  "entries (Obj ps) = ps"
| "entries (Arr xs ps) = zip (map index_key [0 ..< length xs]) xs @ ps"
| "entries _ = []"

section \<open>Priority Sorter\<close>

definition MIN_VALUE :: jsnum where
  "MIN_VALUE = Fin (1 / 2 ^ 1074)"

fun js_sub :: "jsnum \<Rightarrow> jsnum \<Rightarrow> jsnum" where
  "js_sub NaN _ = NaN"
| "js_sub _ NaN = NaN"
| "js_sub (Fin a) (Fin b) = Fin (a - b)"
| "js_sub PosInf PosInf = NaN"
| "js_sub NegInf NegInf = NaN"
| "js_sub PosInf _ = PosInf"
| "js_sub NegInf _ = NegInf"
| "js_sub _ PosInf = NegInf"
| "js_sub _ NegInf = PosInf"

text \<open>\<open>n <= 0\<close> and \<open>n > 0\<close> on a JavaScript number: both are false on NaN.\<close>

fun le0 :: "jsnum \<Rightarrow> bool" where
  "le0 NaN = False"
| "le0 NegInf = True"
| "le0 (Fin q) = (q \<le> 0)"
| "le0 PosInf = False"

fun gt0 :: "jsnum \<Rightarrow> bool" where
  "gt0 NaN = False"
| "gt0 NegInf = False"
| "gt0 (Fin q) = (0 < q)"
| "gt0 PosInf = True"

text \<open>\<open>typeof a.priority === 'number' ? a.priority : Number.MIN_VALUE\<close>\<close>

definition priority_or_min :: "jsval \<Rightarrow> jsnum" where
  "priority_or_min a = (case getp a ''priority'' of Num n \<Rightarrow> n | _ \<Rightarrow> MIN_VALUE)"

definition compare :: "jsval \<Rightarrow> jsval \<Rightarrow> jsnum" where
  "compare a b = js_sub (priority_or_min a) (priority_or_min b)"

text \<open>
  \<open>Array.prototype.sort(comparefn)\<close> is stable: of two elements it moves the later one in
  front of the earlier one only when the comparator puts it strictly first. \<open>sort_with\<close>
  is the stable insertion sort, which is the list every conforming engine returns when
  the comparator is consistent.
\<close>

fun insert_with :: "('a \<Rightarrow> 'a \<Rightarrow> jsnum) \<Rightarrow> 'a \<Rightarrow> 'a list \<Rightarrow> 'a list" where
  "insert_with cmp x [] = [x]"
| "insert_with cmp x (y # ys) =
     (if gt0 (cmp x y) then y # insert_with cmp x ys else x # y # ys)"

definition sort_with :: "('a \<Rightarrow> 'a \<Rightarrow> jsnum) \<Rightarrow> 'a list \<Rightarrow> 'a list" where
  "sort_with cmp xs = foldr (insert_with cmp) xs []"

section \<open>Route normalization\<close>

text \<open>\<open>normalize(mountpath, route)\<close> for a string mount path.\<close>

definition normalize :: "string \<Rightarrow> jsval \<Rightarrow> jsval" where
  "normalize mountpath route =
     (if isRegExp route \<or> isArray route then route
      else case route of
        Str r \<Rightarrow>
          (let m1 = mountpath @ (if mountpath = [] \<or> last mountpath \<noteq> CHR ''/'' then ''/'' else '''');
               m2 = m1 @ (case r of c # cs \<Rightarrow> (if c = CHR ''/'' then cs else r) | [] \<Rightarrow> r)
           in Str m2)
      | _ \<Rightarrow> Str mountpath)"

section \<open>Module Locator and Factory Binder\<close>

text \<open>
  What the source takes from outside the repository is a parameter:
  \<^item> \<open>locate root name\<close> is \<open>require(util.tryResolve(name) ||
    util.tryResolve(path.resolve(root, name)) || name)\<close>: the loaded unit, or the error
    that loading throws;
  \<^item> \<open>call f this args\<close> is \<open>f.apply(this, args)\<close> for a callable \<open>f\<close>: what the function
    returns for that call context and those arguments, or what it throws;
  \<^item> \<open>inherited v k\<close> is what the read \<open>v[k]\<close> yields when \<open>k\<close> is not an own property of
    \<open>v\<close> that the model lists: the member of that name on the prototype chain of \<open>v\<close>, such
    as \<open>toString\<close>, and \<open>undefined\<close> when there is none;
  \<^item> \<open>to_string v\<close> is the string conversion of a value that is not a string, and
    \<open>stringify v\<close> is \<open>JSON.stringify(v)\<close>.
\<close>

record env =
  locate :: "string \<Rightarrow> jsval \<Rightarrow> error + jsval"
  call :: "jsval \<Rightarrow> jsval \<Rightarrow> jsval list \<Rightarrow> error + jsval"
  inherited :: "jsval \<Rightarrow> string \<Rightarrow> jsval"
  to_string :: "jsval \<Rightarrow> string"
  stringify :: "jsval \<Rightarrow> string"

definition toString :: "env \<Rightarrow> jsval \<Rightarrow> string" where
  "toString E v = (case v of Str s \<Rightarrow> s | _ \<Rightarrow> to_string E v)"

text \<open>\<open>member E v k\<close> is the read \<open>v[k]\<close> under a key that the configuration chooses, on a
  value that is neither \<open>null\<close> nor \<open>undefined\<close>: an own property (of an array also an
  element under its index) or else what the value inherits.\<close>

fun own_props :: "jsval \<Rightarrow> (string \<times> jsval) list" where
  "own_props (Arr xs ps) = zip (map index_key [0 ..< length xs]) xs @ ps"
| "own_props v = props v"

definition member :: "env \<Rightarrow> jsval \<Rightarrow> string \<Rightarrow> jsval" where
  "member E v k = (case map_of (own_props v) k of Some x \<Rightarrow> x | None \<Rightarrow> inherited E v k)"

text \<open>\<open>findModuleMethod(config, module)\<close>; the source's \<open>module\<close> is \<open>unit\<close> here.
  Reading a member of a \<open>null\<close> or \<open>undefined\<close> unit throws, and for such a unit every
  path of the function reads one.\<close>

definition findModuleMethod :: "env \<Rightarrow> jsval \<Rightarrow> jsval \<Rightarrow> error + jsval" where
  "findModuleMethod E config unit =
     (if truthy (getp config ''method'') then
        (if nullish unit then Inl (TypeError ''Cannot read properties of null or undefined'')
         else if truthy (member E unit (toString E (getp config ''method'')))
                 \<and> isFunction (member E unit (toString E (getp config ''method'')))
         then Inr (member E unit (toString E (getp config ''method'')))
         else if truthy (getp unit ''default'') \<and> isObject (getp unit ''default'')
         then Inr (member E (getp unit ''default'') (toString E (getp config ''method'')))
         else Inr Undefined)
      else if isFunction unit then Inr unit
      else if nullish unit then Inl (TypeError ''Cannot read properties of null or undefined'')
      else if truthy (getp unit ''default'') \<and> isFunction (getp unit ''default'')
      then Inr (getp unit ''default'')
      else Inr Undefined)"

definition findModule :: "env \<Rightarrow> string \<Rightarrow> jsval \<Rightarrow> error + jsval" where
  "findModule E rootdir config =
     (if \<not> truthy (getp config ''name'')
      then Inl (TypeError (''Module name not defined in middleware config: '' @ stringify E config))
      else locate E rootdir (getp config ''name''))"

text \<open>
  \<open>resolveImpl_config\<close> is \<open>resolveImpl\<close> from its third test on (lines 112 to 132), which
  is where the call \<open>resolveImpl(root, {name: config})\<close> of the string case arrives, an
  object being neither a function nor a string. The variable \<open>module\<close> (here \<open>unit\<close>)
  stays \<open>undefined\<close> when \<open>config.factory\<close> is taken. The write
  \<open>config.name = factory.name\<close> changes the configuration for later readers only and not
  the result; the model does not carry it.
\<close>

definition resolveImpl_config :: "env \<Rightarrow> string \<Rightarrow> jsval \<Rightarrow> error + jsval" where
  "resolveImpl_config E rootdir config =
     (if \<not> truthy config then Inl (TypeError ''No module section given in middleware entry'')
      else
        let args = (case getp config ''arguments'' of Arr xs ps \<Rightarrow> xs | _ \<Rightarrow> []) in
        if truthy (getp config ''factory'') \<and> isFunction (getp config ''factory'')
        then call E (getp config ''factory'') Undefined args
        else
          case findModule E rootdir config of
            Inl e \<Rightarrow> Inl e
          | Inr unit \<Rightarrow>
              (case findModuleMethod E config unit of
                 Inl e \<Rightarrow> Inl e
               | Inr factory \<Rightarrow>
                   if \<not> isFunction factory
                   then Inl (Error (''Unable to locate middleware in '' @ toString E (getp config ''name'')))
                   else call E factory unit args))"

definition resolveImpl :: "env \<Rightarrow> string \<Rightarrow> jsval \<Rightarrow> error + jsval" where
  "resolveImpl E rootdir config =
     (if isFunction config then call E config Undefined []
      else case config of
        Str s \<Rightarrow> resolveImpl_config E rootdir (Obj [(''name'', config)])
      | _ \<Rightarrow> resolveImpl_config E rootdir config)"

section \<open>Helpers of the util module\<close>

text \<open>
  Modelled from the spec: \<open>util.mapValues\<close>, of the repository's util module, which is
  not among the sources. It is the helper that turns a mapping into the list of the
  results of a callback on each entry, the callback receiving the entry's value and its
  key, in the mapping's order.
\<close>

definition mapValues :: "jsval \<Rightarrow> (jsval \<Rightarrow> jsval \<Rightarrow> 'a) \<Rightarrow> 'a list" where
  "mapValues obj fn = map (\<lambda>(k, v). fn v (Str k)) (entries obj)"

text \<open>
  Modelled from the spec: \<open>util.nameObject\<close>, of the same missing module. In the words of
  the specification every child mapping entry is first annotated with its own key as
  \<open>name\<close>, and non-object entries are discarded: an object gets the key as its \<open>name\<close>, and
  an entry that is not an object is handed on as it is, to the filter that follows. The
  specification names no error of this helper.
\<close>

definition nameObject :: "jsval \<Rightarrow> jsval \<Rightarrow> jsval" where
  "nameObject obj name = (if isObject obj then set_prop obj ''name'' name else obj)"

section \<open>Combinator Engine: build phase\<close>

text \<open>\<open>middleware(requestory, fns)\<close>: the falsy tasks are filtered out and the rest is
  wrapped and handed to the requestory of the strategy.\<close>

definition middleware :: "strategy \<Rightarrow> jsval list \<Rightarrow> jsval" where
  "middleware requestory fns = Composite requestory (filter truthy fns)"

section \<open>Spec Resolver\<close>

text \<open>The order in which the children of a fallback mapping are resolved and tried:
  \<open>util.mapValues(spec.fallback, util.nameObject).filter(thing.isObject).sort(compare)\<close>.\<close>

definition fallback_order :: "jsval \<Rightarrow> jsval list" where
  "fallback_order children = sort_with compare (filter isObject (mapValues children nameObject))"

text \<open>The nesting depth of a value bounds the recursion of the resolver.\<close>

primrec depth :: "jsval \<Rightarrow> nat" where
  "depth Undefined = 0"
| "depth Null = 0"
| "depth (Bool b) = 0"
| "depth (Num n) = 0"
| "depth (Str s) = 0"
| "depth (Arr xs ps) =
     Suc (max (foldr max (map depth xs) 0) (foldr max (map snd (map (map_prod id depth) ps)) 0))"
| "depth (Obj ps) = Suc (foldr max (map snd (map (map_prod id depth) ps)) 0)"
| "depth (RegExp s ps) = Suc (foldr max (map snd (map (map_prod id depth) ps)) 0)"
| "depth (Fun i n ps) = Suc (foldr max (map snd (map (map_prod id depth) ps)) 0)"
| "depth (Composite s fns) = Suc (foldr max (map depth fns) 0)"

definition depths :: "(string \<times> jsval) list \<Rightarrow> nat" where
  "depths ps = foldr max (map (\<lambda>p. Suc (depth (snd p))) ps) 0"

lemma foldr_max_le: "foldr max ns (0::nat) \<le> n \<longleftrightarrow> (\<forall>m \<in> set ns. m \<le> n)"
  by (induction ns) auto

lemma depths_le: "depths ps \<le> n \<longleftrightarrow> (\<forall>p \<in> set ps. Suc (depth (snd p)) \<le> n)"
  by (simp add: depths_def foldr_max_le)

lemma le_foldr_max: "x \<in> set xs \<Longrightarrow> f x \<le> foldr max (map f xs) (0::nat)"
  by (induction xs) (auto simp: max_def)

lemma depths_aux:
  "b \<le> Suc 0 \<Longrightarrow> foldr max (map (\<lambda>p. Suc (depth (snd p))) ps) b
     \<le> Suc (foldr max (map (\<lambda>p. depth (snd p)) ps) 0)"
  by (induction ps) auto

lemma depths_props: "depths (props v) \<le> depth v"
proof (cases v)
  case (Arr xs ps)
  have "depths ps \<le> Suc (foldr max (map (\<lambda>p. depth (snd p)) ps) 0)"
    unfolding depths_def by (rule depths_aux) simp
  then show ?thesis using Arr by (simp add: comp_def le_max_iff_disj)
next
  case (Obj ps)
  have "depths ps \<le> Suc (foldr max (map (\<lambda>p. depth (snd p)) ps) 0)"
    unfolding depths_def by (rule depths_aux) simp
  then show ?thesis using Obj by (simp add: comp_def)
next
  case (RegExp s ps)
  have "depths ps \<le> Suc (foldr max (map (\<lambda>p. depth (snd p)) ps) 0)"
    unfolding depths_def by (rule depths_aux) simp
  then show ?thesis using RegExp by (simp add: comp_def)
next
  case (Fun i n ps)
  have "foldr max (map (\<lambda>p. Suc (depth (snd p))) ps) (Suc 0)
      \<le> Suc (foldr max (map (\<lambda>p. depth (snd p)) ps) 0)"
    by (rule depths_aux) simp
  then show ?thesis using Fun by (simp add: comp_def depths_def)
qed (simp_all add: depths_def)

lemma depths_elements: "x \<in> set xs \<Longrightarrow> Suc (depth x) \<le> depth (Arr xs ps)"
  using foldr_max_le [of "map depth xs" "foldr max (map depth xs) 0"] by (simp add: le_max_iff_disj)

lemma depths_entries: "depths (entries v) \<le> depth v"
proof (cases v)
  case (Arr xs ps)
  have "Suc (depth (snd p)) \<le> depth v" if "p \<in> set ps" for p
    using depths_props [of v] that Arr by (simp add: depths_le)
  then show ?thesis using Arr depths_elements [of _ xs ps]
    by (auto simp: depths_le simp del: depth.simps dest!: set_zip_rightD)
next
  case (Obj ps)
  then show ?thesis using depths_props [of v] by simp
qed (simp_all add: depths_def)

lemma depth_getp: "depth (getp v k) \<le> depth v"
proof (cases "map_of (props v) k")
  case None
  then show ?thesis by (simp add: getp_def)
next
  case (Some x)
  then have "(k, x) \<in> set (props v)" by (rule map_of_SomeD)
  then have "Suc (depth x) \<le> depth v"
    using depths_props [of v] by (auto simp: depths_le)
  then show ?thesis using Some by (simp add: getp_def)
qed

lemma map_of_upd: "map_of (upd ps k x) k' = (if k' = k then Some x else map_of ps k')"
  by (induction ps) auto

lemma getp_set_prop_other: "k' \<noteq> k \<Longrightarrow> getp (set_prop v k x) k' = getp v k'"
  by (cases v) (simp_all add: getp_def map_of_upd)


lemma depth_upd:
  "foldr max (map (\<lambda>p. depth (snd p)) (upd ps k x)) 0
     \<le> max (foldr max (map (\<lambda>p. depth (snd p)) ps) 0) (depth x)"
  by (induction ps) auto

lemma depth_nameObject: "depth (nameObject v (Str k)) \<le> depth v"
proof -
  have u: "foldr max (map (\<lambda>p. depth (snd p)) (upd ps ''name'' (Str k))) 0
         \<le> foldr max (map (\<lambda>p. depth (snd p)) ps) 0" for ps
    using depth_upd [of ps "''name''" "Str k"] by simp
  show ?thesis
  proof (cases v)
    case (Arr xs ps)
    then show ?thesis using u [of ps] by (auto simp: nameObject_def comp_def max_def)
  next
    case (Obj ps)
    then show ?thesis using u [of ps] by (simp add: nameObject_def comp_def)
  next
    case (RegExp s ps)
    then show ?thesis using u [of ps] by (simp add: nameObject_def comp_def)
  qed (simp_all add: nameObject_def)
qed

lemma set_insert_with: "set (insert_with cmp x ys) = insert x (set ys)"
  by (induction ys) auto

lemma set_sort_with: "set (sort_with cmp xs) = set xs"
  by (induction xs) (simp_all add: sort_with_def set_insert_with)

lemma depths_fallback:
  "depths (entries (Arr (fallback_order v) [])) \<le> depth v"
proof -
  have "Suc (depth x) \<le> depth v" if "x \<in> set (mapValues v nameObject)" for x
  proof -
    from that obtain k y where ky: "(k, y) \<in> set (entries v)" and x: "x = nameObject y (Str k)"
      by (auto simp: mapValues_def)
    have "Suc (depth y) \<le> depth v"
      using depths_entries [of v] ky by (auto simp: depths_le)
    then show ?thesis using depth_nameObject [of y k] x by simp
  qed
  then show ?thesis
    by (auto simp: fallback_order_def depths_le set_sort_with dest!: set_zip_rightD)
qed

lemma depths_member: "depths (entries (getp v k)) < Suc (depth v)"
  using depths_entries [of "getp v k"] depth_getp [of v k] by simp

lemma depths_fallback_member:
  "depths (entries (Arr (fallback_order (getp v k)) [])) < Suc (depth v)"
  using depths_fallback [of "getp v k"] depth_getp [of v k] by simp

lemma depths_Cons: "depths (p # ps) = max (Suc (depth (snd p))) (depths ps)"
  by (simp add: depths_def)

text \<open>
  \<open>resolve(spec, name)\<close> of \<open>resolvery(basedir)\<close>, with \<open>resolve_all\<close> for the calls that
  \<open>util.mapValues(..., resolve)\<close> makes on the entries of a mapping, followed by
  \<open>Promise.all\<close>. A rejected promise is \<open>Inl\<close>. What the model leaves out: a thenable
  returned by a factory is taken as a settled value; when several children fail the
  model reports the failure of the first of them in the mapping's order, where
  \<open>Promise.all\<close> reports the one that rejects first; and the writes of \<open>name\<close> below the
  spec that is resolved are not carried back into the parent value.

  The guards before the assignment of the name are the source's first test on the values
  that are no plain objects: reading \<open>enabled\<close> of \<open>null\<close> or \<open>undefined\<close> throws, the
  \<open>in\<close> operator throws on a primitive, and the \<open>name\<close> of a function is read-only
  under \<open>'use strict'\<close>.
\<close>

function resolve :: "env \<Rightarrow> string \<Rightarrow> jsval \<Rightarrow> jsval \<Rightarrow> error + jsval"
  and resolve_all :: "env \<Rightarrow> string \<Rightarrow> (string \<times> jsval) list \<Rightarrow> error + jsval list" where
  "resolve E basedir spec name =
     (if nullish spec then Inl (TypeError ''Cannot read properties of null or undefined'')
      else if \<not> isObject spec \<and> \<not> isFunction spec
      then Inl (TypeError ''Cannot use 'in' operator to search for 'enabled' '')
      else if \<not> truthy (getp spec ''enabled'') \<and> has spec ''enabled'' then Inr Undefined
      else if isFunction spec
      then Inl (TypeError ''Cannot assign to read only property 'name' of function'')
      else
        let spec1 = set_prop spec ''name''
                      (if truthy (getp spec ''name'') then getp spec ''name'' else name) in
        if truthy (getp spec1 ''parallel'') then
          (case resolve_all E basedir (entries (getp spec1 ''parallel'')) of
             Inl e \<Rightarrow> Inl e
           | Inr fns \<Rightarrow> Inr (middleware Parallel fns))
        else if truthy (getp spec1 ''race'') then
          (case resolve_all E basedir (entries (getp spec1 ''race'')) of
             Inl e \<Rightarrow> Inl e
           | Inr fns \<Rightarrow> Inr (middleware Race fns))
        else if truthy (getp spec1 ''fallback'') then
          (case resolve_all E basedir
                  (entries (Arr (fallback_order (getp spec1 ''fallback'')) [])) of
             Inl e \<Rightarrow> Inl e
           | Inr fns \<Rightarrow> Inr (middleware Fallback fns))
        else resolveImpl E basedir (getp spec1 ''module''))"
| "resolve_all E basedir [] = Inr []"
| "resolve_all E basedir ((k, v) # rest) =
     (case resolve E basedir v (Str k) of
        Inl e \<Rightarrow> Inl e
      | Inr fn \<Rightarrow>
          (case resolve_all E basedir rest of
             Inl e \<Rightarrow> Inl e
           | Inr fns \<Rightarrow> Inr (fn # fns)))"
  by pat_completeness auto
termination
  apply (relation "measures
     [\<lambda>x. case x of Inl (E, b, spec, name) \<Rightarrow> Suc (depth spec) | Inr (E, b, ps) \<Rightarrow> depths ps,
      \<lambda>x. case x of Inl (E, b, spec, name) \<Rightarrow> 0 | Inr (E, b, ps) \<Rightarrow> length ps]")
       apply simp
      apply (simp add: getp_set_prop_other depths_member)
     apply (simp add: getp_set_prop_other depths_member)
    apply (simp add: getp_set_prop_other depths_fallback_member del: entries.simps)
   apply (auto simp: depths_Cons max_def)
  done

declare resolve.simps [simp del]

text \<open>
  \<open>meddlewareImpl(settings, basedir)\<close> up to the buffered list \<open>toRegister\<close>: the
  registration entries, each the resolved function and its spec, or the error that
  rejects the promise.
\<close>

fun register_all :: "env \<Rightarrow> string \<Rightarrow> jsval list \<Rightarrow> error + (jsval \<times> jsval) list" where
  "register_all E basedir [] = Inr []"
| "register_all E basedir (spec # specs) =
     (case resolve E basedir spec (getp spec ''name'') of
        Inl e \<Rightarrow> Inl e
      | Inr fn \<Rightarrow>
          (case register_all E basedir specs of
             Inl e \<Rightarrow> Inl e
           | Inr toRegister \<Rightarrow> Inr (if truthy fn then (fn, spec) # toRegister else toRegister)))"

definition toCreate :: "jsval \<Rightarrow> jsval list" where
  "toCreate settings = sort_with compare (filter isObject (mapValues settings nameObject))"

definition meddlewareImpl :: "env \<Rightarrow> jsval \<Rightarrow> string \<Rightarrow> error + (jsval \<times> jsval) list" where
  "meddlewareImpl E settings basedir = register_all E basedir (toCreate settings)"

section \<open>Mount-Time Registrar\<close>

text \<open>What \<open>onmount\<close> does to the parent for the buffered entries, in order: the events it
  emits, each with the spec it carries as \<open>config\<close>, and the registrations.\<close>

datatype action = Emit string jsval | Use jsval jsval

definition mount_route :: "string \<Rightarrow> jsval \<Rightarrow> jsval" where
  "mount_route mountpath spec =
     (case getp spec ''route'' of
        Arr routes ps \<Rightarrow> Arr (map (normalize mountpath) routes) ps
      | route \<Rightarrow> normalize mountpath route)"

definition onmount :: "env \<Rightarrow> string \<Rightarrow> (jsval \<times> jsval) list \<Rightarrow> action list" where
  "onmount E mountpath toRegister =
     concat (map (\<lambda>(fn, spec).
       [Emit ''middleware:before'' spec,
        Emit (''middleware:before:'' @ toString E (getp spec ''name'')) spec,
        Use (mount_route mountpath spec) fn,
        Emit (''middleware:after:'' @ toString E (getp spec ''name'')) spec,
        Emit ''middleware:after'' spec]) toRegister)"

section \<open>Combinator Engine: execution of a fallback composite\<close>

text \<open>
  A task called at request time reports once through its callback. \<open>run fn value\<close> is what
  the function \<open>fn\<close> does with the request context \<open>value\<close>: the argument it gives to its
  callback (\<open>undefined\<close> when it gives none) and the context it leaves behind.
  \<open>requestor\<close> is the closure that \<open>taskery(fn)\<close> returns; calling a task that is no
  function throws.
\<close>

definition requestor ::
  "(jsval \<Rightarrow> 'c \<Rightarrow> jsval \<times> 'c) \<Rightarrow> jsval \<Rightarrow> 'c \<Rightarrow> error + jsval \<times> 'c" where
  "requestor run fn value =
     (if isFunction fn then Inr (run fn value) else Inl (TypeError ''fn is not a function''))"

text \<open>
  Modelled from the spec: \<open>RQ.fallback\<close>, of the repository's rq module, which is not
  among the sources. The requestors run one after the other, the next one only after the
  one before has signalled; the first that signals without error ends the run with
  success; after an error the next one is tried; when every one has failed the last
  error is forwarded, and an empty list ends with no error. The result is the list of the
  tasks that were invoked, in order and each with what it reported, the failure handed to
  the completion callback (\<open>undefined\<close> for success) and the request context. An error
  is a truthy failure.
\<close>

fun fallback_rq ::
  "('t \<Rightarrow> 'c \<Rightarrow> error + jsval \<times> 'c) \<Rightarrow> 't list \<Rightarrow> jsval \<Rightarrow> 'c
     \<Rightarrow> error + ('t \<times> jsval) list \<times> jsval \<times> 'c" where
  "fallback_rq req [] failure value = Inr ([], failure, value)"
| "fallback_rq req (t # ts) failure value =
     (case req t value of
        Inl e \<Rightarrow> Inl e
      | Inr (err, value') \<Rightarrow>
          if truthy err
          then (case fallback_rq req ts err value' of
                  Inl e \<Rightarrow> Inl e
                | Inr (invoked, failure', value'') \<Rightarrow> Inr ((t, err) # invoked, failure', value''))
          else Inr ([(t, err)], Undefined, value'))"

text \<open>The closure \<open>composite\<close> of a fallback: \<open>rq(complete, {req, res})\<close>, where \<open>complete\<close>
  hands the failure to \<open>next\<close>.\<close>

definition composite_fallback ::
  "(jsval \<Rightarrow> 'c \<Rightarrow> jsval \<times> 'c) \<Rightarrow> jsval list \<Rightarrow> 'c
     \<Rightarrow> error + (jsval \<times> jsval) list \<times> jsval \<times> 'c" where
  "composite_fallback run fns value = fallback_rq (requestor run) fns Undefined value"

section \<open>The specification's reading of route joining\<close>

text \<open>The mount path without one trailing separator and the route without one leading
  separator, as the specification words the joining of the two.\<close>

definition strip_trailing_sep :: "string \<Rightarrow> string" where
  "strip_trailing_sep m = (if m \<noteq> [] \<and> last m = CHR ''/'' then butlast m else m)"

definition strip_leading_sep :: "string \<Rightarrow> string" where
  "strip_leading_sep r = (if r \<noteq> [] \<and> hd r = CHR ''/'' then tl r else r)"

section \<open>The specification's reading of ascending order\<close>

text \<open>The order of JavaScript numbers, which holds of no pair with a NaN, and a list of
  specs in ascending order of the priorities that the comparator reads.\<close>

fun js_le :: "jsnum \<Rightarrow> jsnum \<Rightarrow> bool" where
  "js_le NaN _ = False"
| "js_le _ NaN = False"
| "js_le NegInf _ = True"
| "js_le _ PosInf = True"
| "js_le (Fin a) (Fin b) = (a \<le> b)"
| "js_le _ _ = False"

definition ascending :: "jsval list \<Rightarrow> bool" where
  "ascending xs = sorted_wrt (\<lambda>a b. js_le (priority_or_min a) (priority_or_min b)) xs"

section \<open>The specification's reading of the choice of the factory\<close>

text \<open>
  The member of a loaded unit that produces the middleware, in the words of the
  specification: with \<open>config.method\<close> set, the callable member of that name, else that
  member of the unit's \<open>default\<close> object; with \<open>config.method\<close> unset, the unit itself when
  it is callable, else its callable \<open>default\<close>; and nothing (\<open>undefined\<close>) otherwise.
\<close>

definition selected_member :: "env \<Rightarrow> jsval \<Rightarrow> jsval \<Rightarrow> jsval" where
  "selected_member E config unit =
     (if truthy (getp config ''method'')
         \<and> isFunction (member E unit (toString E (getp config ''method'')))
      then member E unit (toString E (getp config ''method''))
      else if truthy (getp config ''method'')
         \<and> truthy (getp unit ''default'') \<and> isObject (getp unit ''default'')
      then member E (getp unit ''default'') (toString E (getp config ''method''))
      else if \<not> truthy (getp config ''method'') \<and> isFunction unit then unit
      else if \<not> truthy (getp config ''method'') \<and> isFunction (getp unit ''default'')
      then getp unit ''default''
      else Undefined)"

section \<open>The specification's reading of a fallback run\<close>

text \<open>What each of a list of tasks reports when all of them are run in order on a request,
  each on the context that the one before left behind, and the context after all of
  them.\<close>

fun reports :: "(jsval \<Rightarrow> 'c \<Rightarrow> jsval \<times> 'c) \<Rightarrow> jsval list \<Rightarrow> 'c \<Rightarrow> (jsval \<times> jsval) list" where
  "reports run [] value = []"
| "reports run (t # ts) value = (t, fst (run t value)) # reports run ts (snd (run t value))"

fun ctx_after :: "(jsval \<Rightarrow> 'c \<Rightarrow> jsval \<times> 'c) \<Rightarrow> jsval list \<Rightarrow> 'c \<Rightarrow> 'c" where
  "ctx_after run [] value = value"
| "ctx_after run (t # ts) value = ctx_after run ts (snd (run t value))"

section \<open>Example environments\<close>

text \<open>An environment in which no module can be loaded and a call returns its call
  context.\<close>

definition E0 :: env where
  "E0 = \<lparr> locate = (\<lambda>rootdir name. Inl (Error ''Cannot find module'')),
          call = (\<lambda>f this args. Inr this),
          inherited = (\<lambda>v k. Undefined),
          to_string = (\<lambda>v. ''[object Object]''),
          stringify = (\<lambda>v. ''{}'') \<rparr>"

text \<open>An environment with six loadable units: one with a default export, one that is
  callable and has a different default export, one without an own callable member, and
  three that are factories themselves. The default export returns its call context
  followed by its arguments; every other function returns a handler. Every object
  inherits a callable \<open>toString\<close>.\<close>

definition E1 :: env where
  "E1 = \<lparr> locate = (\<lambda>rootdir name.
            if name = Str ''es6'' then Inr (Obj [(''default'', Fun 1 ''create'' [])])
            else if name = Str ''both'' then Inr (Fun 2 ''main'' [(''default'', Fun 1 ''create'' [])])
            else if name = Str ''plain'' then Inr (Obj [(''version'', Num (Fin 1))])
            else if name = Str ''a'' then Inr (Fun 11 ''a'' [])
            else if name = Str ''b'' then Inr (Fun 12 ''b'' [])
            else if name = Str ''c'' then Inr (Fun 13 ''c'' [])
            else Inl (Error ''Cannot find module'')),
          call = (\<lambda>f this args.
            case f of
              Fun i n ps \<Rightarrow> if i = 1 then Inr (Arr (this # args) []) else Inr (Fun (100 + i) ''handler'' [])
            | _ \<Rightarrow> Inl (TypeError ''not a function'')),
          inherited = (\<lambda>v k. if isObject v \<and> k = ''toString'' then Fun 3 ''toString'' [] else Undefined),
          to_string = (\<lambda>v. ''[object Object]''),
          stringify = (\<lambda>v. ''{}'') \<rparr>"

text \<open>Settings with a disabled entry and an enabled entry.\<close>

definition settings1 :: jsval where
  "settings1 = Obj
     [(''off'', Obj [(''enabled'', Bool False), (''module'', Str ''a'')]),
      (''on'', Obj [(''module'', Str ''b'')])]"

text \<open>A fallback of three children, of priorities 2, 1 and 3, and two requests: on the
  first the handler of the child of priority 2 fails and every other handler succeeds, on
  the second the handler of the child of priority 1 fails and every other handler
  succeeds. The request context is the list of the handlers that ran.\<close>

definition chain :: jsval where
  "chain = Obj [(''fallback'', Obj
     [(''first'', Obj [(''priority'', Num (Fin 2)), (''module'', Str ''a'')]),
      (''second'', Obj [(''priority'', Num (Fin 1)), (''module'', Str ''b'')]),
      (''third'', Obj [(''priority'', Num (Fin 3)), (''module'', Str ''c'')])])]"

definition run_chain :: "jsval \<Rightarrow> jsval list \<Rightarrow> jsval \<times> jsval list" where
  "run_chain fn seen = (if fn = Fun 111 ''handler'' [] then Str ''boom'' else Undefined, seen @ [fn])"

definition run_chain2 :: "jsval \<Rightarrow> jsval list \<Rightarrow> jsval \<times> jsval list" where
  "run_chain2 fn seen = (if fn = Fun 112 ''handler'' [] then Str ''boom'' else Undefined, seen @ [fn])"

text \<open>A fallback mapping with a child whose priority is NaN.\<close>

definition nan_children :: jsval where
  "nan_children = Obj
     [(''a'', Obj [(''priority'', Num (Fin 3))]),
      (''b'', Obj [(''priority'', Num NaN)]),
      (''c'', Obj [(''priority'', Num (Fin 1))])]"

section \<open>Sorting by the comparator: lemmas\<close>

lemma not_gt0_sub: "a \<noteq> NaN \<Longrightarrow> b \<noteq> NaN \<Longrightarrow> \<not> gt0 (js_sub a b) \<longleftrightarrow> js_le a b"
  by (cases a; cases b) auto

lemma gt0_sub_le: "gt0 (js_sub a b) \<Longrightarrow> js_le b a"
  by (cases a; cases b) auto

lemma js_le_trans: "js_le a b \<Longrightarrow> js_le b c \<Longrightarrow> js_le a c"
  by (cases a; cases b; cases c) auto

lemma gt0_sub_same: "\<not> gt0 (js_sub a a)"
  by (cases a) auto

lemma ascending_insert:
  assumes "ascending ys" "priority_or_min x \<noteq> NaN" "\<forall>y \<in> set ys. priority_or_min y \<noteq> NaN"
  shows "ascending (insert_with compare x ys)"
  using assms
proof (induction ys)
  case Nil
  then show ?case by (simp add: ascending_def)
next
  case (Cons y ys)
  show ?case
  proof (cases "gt0 (compare x y)")
    case True
    then have yx: "js_le (priority_or_min y) (priority_or_min x)"
      by (simp add: compare_def gt0_sub_le)
    have "ascending (insert_with compare x ys)"
      using Cons by (simp add: ascending_def)
    then show ?thesis using True Cons.prems yx
      by (auto simp: ascending_def set_insert_with)
  next
    case False
    then have xy: "js_le (priority_or_min x) (priority_or_min y)"
      using Cons.prems by (simp add: compare_def not_gt0_sub)
    then show ?thesis using False Cons.prems
      by (auto simp: ascending_def intro: js_le_trans)
  qed
qed

lemma ascending_sort:
  "\<forall>x \<in> set xs. priority_or_min x \<noteq> NaN \<Longrightarrow> ascending (sort_with compare xs)"
proof (induction xs)
  case Nil
  then show ?case by (simp add: sort_with_def ascending_def)
next
  case (Cons x xs)
  then have "ascending (sort_with compare xs)" by simp
  then show ?case using Cons.prems ascending_insert [of "sort_with compare xs" x]
    by (simp add: sort_with_def set_sort_with [unfolded sort_with_def])
qed

lemma filter_insert_with:
  "filter (\<lambda>y. priority_or_min y = p) (insert_with compare x ys)
     = (if priority_or_min x = p then x # filter (\<lambda>y. priority_or_min y = p) ys
        else filter (\<lambda>y. priority_or_min y = p) ys)"
  by (induction ys) (auto simp: compare_def gt0_sub_same)

lemma stable_sort:
  "filter (\<lambda>y. priority_or_min y = p) (sort_with compare xs) = filter (\<lambda>y. priority_or_min y = p) xs"
  by (induction xs) (simp_all add: sort_with_def filter_insert_with)

lemma js_le_antisym: "js_le a b \<Longrightarrow> js_le b a \<Longrightarrow> a = b"
  by (cases a; cases b) auto

lemma ascending_nth:
  assumes "\<forall>x \<in> set xs. priority_or_min x \<noteq> NaN" and "i < j" and "j < length (sort_with compare xs)"
  shows "js_le (priority_or_min (sort_with compare xs ! i)) (priority_or_min (sort_with compare xs ! j))"
  using ascending_sort [OF assms(1)] assms(2,3)
  by (simp add: ascending_def sorted_wrt_iff_nth_less)

lemma getp_nameObject_other: "k \<noteq> ''name'' \<Longrightarrow> getp (nameObject v n) k = getp v k"
  by (simp add: nameObject_def getp_set_prop_other)

lemma priority_nameObject: "priority_or_min (nameObject v n) = priority_or_min v"
  by (simp add: priority_or_min_def getp_nameObject_other)

lemma priority_not_NaN: "getp v ''priority'' \<noteq> Num NaN \<Longrightarrow> priority_or_min v \<noteq> NaN"
  by (cases "getp v ''priority''") (simp_all add: priority_or_min_def MIN_VALUE_def)


section \<open>Priority Sorter: properties\<close>

text \<open>
  C3, as the code has it. A spec without a numeric priority is given
  \<open>Number.MIN_VALUE\<close>, which is \<open>2^-1074\<close>, the smallest positive double, and not the most
  negative one. Against a spec \<open>b\<close> whose priority is a positive number (every positive
  double is at least \<open>Number.MIN_VALUE\<close>; \<open>+Infinity\<close> is included) the comparator returns
  \<open>Number.MIN_VALUE - b.priority\<close>, which is at most zero. When the priority of \<open>b\<close> is
  greater than \<open>Number.MIN_VALUE\<close> and no priority is NaN, \<open>b\<close> is never placed before the
  spec without priority, in the list of the top-level specs and in the list of the
  children of a fallback alike, both being sorted with this comparator.
\<close>

theorem compare_missing_priority:
  assumes "\<not> isNumber (getp a ''priority'')" and "getp b ''priority'' = Num n"
    and "js_le (Fin (1 / 2 ^ 1074)) n"
  shows "priority_or_min a = Fin (1 / 2 ^ 1074)
    \<and> compare a b = js_sub (Fin (1 / 2 ^ 1074)) n
    \<and> le0 (compare a b)
    \<and> (n \<noteq> Fin (1 / 2 ^ 1074) \<and> (\<forall>x \<in> set (toCreate settings). priority_or_min x \<noteq> NaN)
        \<longrightarrow> (\<forall>i j. i < j \<and> j < length (toCreate settings) \<and> toCreate settings ! i = b
                  \<longrightarrow> toCreate settings ! j \<noteq> a))
    \<and> (n \<noteq> Fin (1 / 2 ^ 1074) \<and> (\<forall>x \<in> set (fallback_order children). priority_or_min x \<noteq> NaN)
        \<longrightarrow> (\<forall>i j. i < j \<and> j < length (fallback_order children) \<and> fallback_order children ! i = b
                  \<longrightarrow> fallback_order children ! j \<noteq> a))"
proof -
  have pa: "priority_or_min a = Fin (1 / 2 ^ 1074)"
    using assms(1) by (cases "getp a ''priority''") (simp_all add: priority_or_min_def MIN_VALUE_def)
  have pb: "priority_or_min b = n"
    using assms(2) by (simp add: priority_or_min_def)
  have cmp: "compare a b = js_sub (Fin (1 / 2 ^ 1074)) n"
    by (simp add: compare_def pa pb)
  have le: "le0 (compare a b)"
    using assms(3) unfolding cmp by (cases n) simp_all
  have order: "sort_with compare ys ! j \<noteq> a"
    if "n \<noteq> Fin (1 / 2 ^ 1074)" and nan: "\<forall>x \<in> set (sort_with compare ys). priority_or_min x \<noteq> NaN"
      and "i < j" and "j < length (sort_with compare ys)" and "sort_with compare ys ! i = b"
    for ys i j
  proof
    assume "sort_with compare ys ! j = a"
    moreover have "\<forall>x \<in> set ys. priority_or_min x \<noteq> NaN"
      using nan by (simp add: set_sort_with)
    ultimately have "js_le n (Fin (1 / 2 ^ 1074))"
      using ascending_nth [of ys i j] that pa pb by simp
    with assms(3) have "n = Fin (1 / 2 ^ 1074)" by (simp add: js_le_antisym)
    with that(1) show False by simp
  qed
  show ?thesis
    using pa cmp le order [where ys = "filter isObject (mapValues settings nameObject)"]
      order [where ys = "filter isObject (mapValues children nameObject)"]
    unfolding toCreate_def fallback_order_def by blast
qed

theorem compare_missing_priority_witness:
  "le0 (compare (Obj [(''name'', Str ''a'')]) (Obj [(''priority'', Num (Fin 10)), (''name'', Str ''b'')]))
   \<and> le0 (compare (Obj [(''name'', Str ''a'')]) (Obj [(''priority'', Num PosInf)]))
   \<and> toCreate (Obj [(''b'', Obj [(''priority'', Num (Fin 10))]), (''a'', Obj [])])
       = [Obj [(''name'', Str ''a'')], Obj [(''priority'', Num (Fin 10)), (''name'', Str ''b'')]]"
  using compare_missing_priority [of "Obj [(''name'', Str ''a'')]"
          "Obj [(''priority'', Num (Fin 10)), (''name'', Str ''b'')]" "Fin 10"
          "Obj [(''b'', Obj [(''priority'', Num (Fin 10))]), (''a'', Obj [])]" "Obj []"]
        compare_missing_priority [of "Obj [(''name'', Str ''a'')]"
          "Obj [(''priority'', Num PosInf)]" PosInf "Obj []" "Obj []"]
  by (simp add: getp_def toCreate_def mapValues_def nameObject_def sort_with_def compare_def
      priority_or_min_def MIN_VALUE_def)

text \<open>C3 as stated fails for a negative priority: a spec without priority compares as
  greater than a spec of priority \<open>-1\<close>, and sorts after it.\<close>

theorem compare_negative_priority:
  "\<not> le0 (compare (Obj []) (Obj [(''priority'', Num (Fin (- 1)))]))"
  by (simp add: compare_def priority_or_min_def MIN_VALUE_def getp_def)

section \<open>Module Locator: properties\<close>

text \<open>
  C5, as the code has it. A falsy configuration that is not a string (\<open>false\<close>, \<open>null\<close>,
  \<open>undefined\<close>, \<open>0\<close>, \<open>NaN\<close>) fails with the error that no module section was given.
  Every string, the empty one included, is resolved as \<open>{name: config}\<close>, the test for a
  string coming first; for the empty string that is the error of a missing module name.
\<close>

theorem resolveImpl_falsy_or_string:
  "(\<not> truthy config \<and> \<not> isString config \<longrightarrow>
      resolveImpl E rootdir config = Inl (TypeError ''No module section given in middleware entry''))
   \<and> resolveImpl E rootdir (Str s) = resolveImpl E rootdir (Obj [(''name'', Str s)])
   \<and> resolveImpl E rootdir (Str '''')
        = Inl (TypeError (''Module name not defined in middleware config: ''
                            @ stringify E (Obj [(''name'', Str '''')])))"
  by (cases config) (simp_all add: resolveImpl_def resolveImpl_config_def findModule_def getp_def)

theorem resolveImpl_falsy_or_string_witness:
  "resolveImpl E0 ''/app'' Null = Inl (TypeError ''No module section given in middleware entry'')
   \<and> resolveImpl E0 ''/app'' (Str ''x'') = resolveImpl E0 ''/app'' (Obj [(''name'', Str ''x'')])"
  using resolveImpl_falsy_or_string [of Null E0 "''/app''" "''x''"]
  by simp

text \<open>C5 as stated fails for the empty string, which is falsy: the error is not the one
  of the missing module section.\<close>

theorem resolveImpl_empty_string:
  "resolveImpl E0 ''/app'' (Str '''')
     \<noteq> Inl (TypeError ''No module section given in middleware entry'')"
  by (simp add: resolveImpl_def resolveImpl_config_def findModule_def E0_def getp_def)

section \<open>Route normalization: properties\<close>

text \<open>
  C8, as the code has it. For a string route the result is the mount path without one
  trailing separator, a separator, and the route without one leading separator: the
  separator is added when the mount path lacks it and one leading separator of the route
  is stripped. Exactly one separator stands between the two when the mount path does not
  end in two separators and the route does not begin with two. The two examples of the
  specification hold.
\<close>

theorem normalize_string:
  "normalize m (Str r) = Str (strip_trailing_sep m @ ''/'' @ strip_leading_sep r)
   \<and> (take 2 (rev m) \<noteq> ''//''
        \<longrightarrow> strip_trailing_sep m = [] \<or> last (strip_trailing_sep m) \<noteq> CHR ''/'')
   \<and> (take 2 r \<noteq> ''//''
        \<longrightarrow> strip_leading_sep r = [] \<or> hd (strip_leading_sep r) \<noteq> CHR ''/'')
   \<and> normalize ''/api'' (Str ''/users'') = Str ''/api/users''
   \<and> normalize ''/api/'' (Str ''users'') = Str ''/api/users''"
proof (intro conjI impI)
  have "m \<noteq> [] \<Longrightarrow> last m = CHR ''/'' \<Longrightarrow> butlast m @ ''/'' = m"
    using append_butlast_last_id [of m] by simp
  then show "normalize m (Str r) = Str (strip_trailing_sep m @ ''/'' @ strip_leading_sep r)"
    by (auto simp: normalize_def strip_trailing_sep_def strip_leading_sep_def split: list.splits)
  show "strip_trailing_sep m = [] \<or> last (strip_trailing_sep m) \<noteq> CHR ''/''"
    if "take 2 (rev m) \<noteq> ''//''"
  proof (cases m rule: rev_cases)
    case Nil
    then show ?thesis by (simp add: strip_trailing_sep_def)
  next
    case (snoc xs c)
    show ?thesis
    proof (cases xs rule: rev_cases)
      case Nil
      then show ?thesis using snoc by (simp add: strip_trailing_sep_def)
    next
      case (snoc ys d)
      then have m: "m = (ys @ [d]) @ [c]" using \<open>m = xs @ [c]\<close> by simp
      then have "[c, d] \<noteq> ''//''" using that by simp
      then show ?thesis unfolding m strip_trailing_sep_def butlast_snoc last_snoc by auto
    qed
  qed
  show "strip_leading_sep r = [] \<or> hd (strip_leading_sep r) \<noteq> CHR ''/''"
    if "take 2 r \<noteq> ''//''"
    using that by (cases r; cases "tl r") (auto simp: strip_leading_sep_def)
qed (simp_all add: normalize_def)

theorem normalize_string_witness:
  "normalize ''/api/'' (Str ''/users'') = Str ''/api/users''
   \<and> last (strip_trailing_sep ''/api/'') \<noteq> CHR ''/'' \<and> hd (strip_leading_sep ''/users'') \<noteq> CHR ''/''"
  using normalize_string [of "''/api/''" "''/users''"]
  by (simp add: strip_trailing_sep_def strip_leading_sep_def)

text \<open>C8 as stated fails for a route that begins with two separators: two separators
  stand between the mount path and the rest of the route.\<close>

theorem normalize_double_separator:
  "normalize ''/api'' (Str ''//x'') = Str ''/api//x''"
  by (simp add: normalize_def)

text \<open>
  C9, as the code has it. A regular expression and an array are returned unchanged; for
  any other route that is not a string (an absent route, a number) the result is the
  mount path, so that the middleware is registered at the mount point.
\<close>

theorem normalize_other:
  "(isRegExp route \<or> isArray route \<longrightarrow> normalize m route = route)
   \<and> (\<not> isRegExp route \<and> \<not> isArray route \<and> \<not> isString route \<longrightarrow> normalize m route = Str m)"
  by (cases route) (simp_all add: normalize_def)

theorem normalize_other_witness:
  "normalize ''/api'' (RegExp ''^/x'' []) = RegExp ''^/x'' []
   \<and> normalize ''/api'' (Arr [Str ''/a''] []) = Arr [Str ''/a''] []
   \<and> normalize ''/api'' (Num (Fin 7)) = Str ''/api''"
  using normalize_other [of "RegExp ''^/x'' []" "''/api''"]
        normalize_other [of "Arr [Str ''/a''] []" "''/api''"]
        normalize_other [of "Num (Fin 7)" "''/api''"]
  by simp

text \<open>C9 as stated fails for an absent route: the result is the mount path, not the
  route.\<close>

theorem normalize_undefined_route: "normalize ''/api'' Undefined \<noteq> Undefined"
  by (simp add: normalize_def)

section \<open>Factory selection and invocation: properties\<close>

lemma function_truthy: "isFunction v \<Longrightarrow> truthy v"
  by (cases v) simp_all

lemma object_config: "isObject config \<Longrightarrow> \<not> isFunction config \<and> truthy config \<and> \<not> isString config"
  by (cases config) simp_all

lemma resolveImpl_object:
  assumes "isObject config"
    and "\<not> (truthy (getp config ''factory'') \<and> isFunction (getp config ''factory''))"
    and "findModule E rootdir config = Inr unit"
    and "findModuleMethod E config unit = Inr factory"
  shows "resolveImpl E rootdir config =
     (if isFunction factory
      then call E factory unit (case getp config ''arguments'' of Arr xs ps \<Rightarrow> xs | _ \<Rightarrow> [])
      else Inl (Error (''Unable to locate middleware in '' @ toString E (getp config ''name''))))"
  using assms object_config [OF assms(1)]
  by (cases config) (auto simp: resolveImpl_def resolveImpl_config_def Let_def)

lemma findModuleMethod_selected:
  "\<not> nullish unit \<Longrightarrow> findModuleMethod E config unit = Inr (selected_member E config unit)"
  by (auto simp: findModuleMethod_def selected_member_def function_truthy)



text \<open>
  C7, as the code has it. The factory found in a loaded unit is applied to the unit as its
  call context: for a string reference whose unit is not callable itself and has a
  callable default export, the task is the result of calling that export on the unit
  with no arguments; a unit that is callable itself is called instead, on itself. A
  factory given as \<open>config.factory\<close> is called without call context. In every case the
  arguments are \<open>config.arguments\<close> when that is a list and none otherwise.
\<close>

theorem resolveImpl_call:
  "(x \<noteq> [] \<and> locate E rootdir (Str x) = Inr unit \<and> \<not> nullish unit \<and> \<not> isFunction unit
      \<and> isFunction (getp unit ''default'')
     \<longrightarrow> resolveImpl E rootdir (Str x) = call E (getp unit ''default'') unit [])
   \<and> (x \<noteq> [] \<and> locate E rootdir (Str x) = Inr unit \<and> isFunction unit
     \<longrightarrow> resolveImpl E rootdir (Str x) = call E unit unit [])
   \<and> (isObject config \<and> truthy (getp config ''factory'') \<and> isFunction (getp config ''factory'')
     \<longrightarrow> resolveImpl E rootdir config
           = call E (getp config ''factory'') Undefined
               (case getp config ''arguments'' of Arr xs ps \<Rightarrow> xs | _ \<Rightarrow> []))
   \<and> (isObject config
        \<and> \<not> (truthy (getp config ''factory'') \<and> isFunction (getp config ''factory''))
        \<and> findModule E rootdir config = Inr unit \<and> \<not> nullish unit
        \<and> isFunction (selected_member E config unit)
     \<longrightarrow> resolveImpl E rootdir config
           = call E (selected_member E config unit) unit
               (case getp config ''arguments'' of Arr xs ps \<Rightarrow> xs | _ \<Rightarrow> []))"
proof (intro conjI impI)
  show "resolveImpl E rootdir (Str x) = call E (getp unit ''default'') unit []"
    if "x \<noteq> [] \<and> locate E rootdir (Str x) = Inr unit \<and> \<not> nullish unit \<and> \<not> isFunction unit
      \<and> isFunction (getp unit ''default'')"
    using that
    by (simp add: resolveImpl_def resolveImpl_config_def findModule_def findModuleMethod_def
        function_truthy getp_def [of "Obj _"])
  show "resolveImpl E rootdir (Str x) = call E unit unit []"
    if "x \<noteq> [] \<and> locate E rootdir (Str x) = Inr unit \<and> isFunction unit"
    using that
    by (simp add: resolveImpl_def resolveImpl_config_def findModule_def findModuleMethod_def
        getp_def [of "Obj _"])
  show "resolveImpl E rootdir config
           = call E (getp config ''factory'') Undefined
               (case getp config ''arguments'' of Arr xs ps \<Rightarrow> xs | _ \<Rightarrow> [])"
    if "isObject config \<and> truthy (getp config ''factory'') \<and> isFunction (getp config ''factory'')"
    using that object_config [of config]
    by (cases config) (auto simp: resolveImpl_def resolveImpl_config_def Let_def)
  show "resolveImpl E rootdir config
           = call E (selected_member E config unit) unit
               (case getp config ''arguments'' of Arr xs ps \<Rightarrow> xs | _ \<Rightarrow> [])"
    if "isObject config
        \<and> \<not> (truthy (getp config ''factory'') \<and> isFunction (getp config ''factory''))
        \<and> findModule E rootdir config = Inr unit \<and> \<not> nullish unit
        \<and> isFunction (selected_member E config unit)"
    using that resolveImpl_object [of config E rootdir unit "selected_member E config unit"]
      findModuleMethod_selected [of unit E config] by auto
qed

theorem resolveImpl_call_witness:
  "resolveImpl E1 ''/app'' (Str ''es6'') = Inr (Arr [Obj [(''default'', Fun 1 ''create'' [])]] [])
   \<and> resolveImpl E1 ''/app'' (Str ''both'') = Inr (Fun 102 ''handler'' [])
   \<and> resolveImpl E1 ''/app''
        (Obj [(''factory'', Fun 1 ''create'' []), (''arguments'', Arr [Str ''x'', Null] [])])
      = Inr (Arr [Undefined, Str ''x'', Null] [])
   \<and> resolveImpl E1 ''/app'' (Obj [(''name'', Str ''es6''), (''arguments'', Str ''x'')])
      = Inr (Arr [Obj [(''default'', Fun 1 ''create'' [])]] [])"
  using resolveImpl_call [of "''es6''" E1 "''/app''" "Obj [(''default'', Fun 1 ''create'' [])]"
          Undefined]
        resolveImpl_call [of "''both''" E1 "''/app''" "Fun 2 ''main'' [(''default'', Fun 1 ''create'' [])]"
          Undefined]
        resolveImpl_call [of "''es6''" E1 "''/app''" Undefined
          "Obj [(''factory'', Fun 1 ''create'' []), (''arguments'', Arr [Str ''x'', Null] [])]"]
        resolveImpl_call [of "''es6''" E1 "''/app''" "Obj [(''default'', Fun 1 ''create'' [])]"
          "Obj [(''name'', Str ''es6''), (''arguments'', Str ''x'')]"]
  by (simp add: findModule_def selected_member_def member_def getp_def E1_def)

text \<open>C7 as stated fails for a default export whose result depends on its call context,
  where the task is not what the call without call context returns, and for a unit that
  is callable itself, where the default export is not called at all.\<close>

theorem resolveImpl_call_context_counterexample:
  "resolveImpl E1 ''/app'' (Str ''es6'') \<noteq> call E1 (Fun 1 ''create'' []) Undefined []
   \<and> resolveImpl E1 ''/app'' (Str ''both'')
       \<noteq> call E1 (Fun 1 ''create'' []) (Fun 2 ''main'' [(''default'', Fun 1 ''create'' [])]) []"
  by (simp add: resolveImpl_def resolveImpl_config_def findModule_def findModuleMethod_def
      getp_def E1_def)

section \<open>Spec Resolver and registration: properties\<close>

lemma has_plain: "has spec k \<Longrightarrow> \<not> nullish spec \<and> (isObject spec \<or> isFunction spec)"
  by (cases spec) (simp_all add: has_def)

lemma resolve_disabled:
  "has spec ''enabled'' \<Longrightarrow> \<not> truthy (getp spec ''enabled'') \<Longrightarrow> resolve E basedir spec name = Inr Undefined"
  using has_plain [of spec "''enabled''"] by (auto simp: resolve.simps)

lemma register_all_entry:
  "register_all E basedir specs = Inr toRegister \<Longrightarrow> (fn, spec) \<in> set toRegister
     \<Longrightarrow> spec \<in> set specs \<and> resolve E basedir spec (getp spec ''name'') = Inr fn \<and> truthy fn"
proof (induction specs arbitrary: toRegister)
  case Nil
  then show ?case by simp
next
  case (Cons s specs)
  then show ?case
    by (fastforce split: sum.splits if_splits)
qed

text \<open>
  C1. A spec in which \<open>enabled\<close> is present and falsy resolves to \<open>undefined\<close>, whatever
  else it holds: no middleware function is produced. In the loop of \<open>meddlewareImpl\<close> such
  a spec adds nothing to the buffered list, and no entry of the list that
  \<open>meddlewareImpl\<close> builds carries it.
\<close>

theorem disabled_spec_not_registered:
  assumes "has spec ''enabled''" and "\<not> truthy (getp spec ''enabled'')"
  shows "resolve E basedir spec name = Inr Undefined
    \<and> register_all E basedir (spec # specs) = register_all E basedir specs
    \<and> (meddlewareImpl E settings basedir = Inr toRegister \<longrightarrow> spec \<notin> snd ` set toRegister)"
proof (intro conjI impI)
  show r: "resolve E basedir spec name = Inr Undefined" for name
    using assms by (rule resolve_disabled)
  show "register_all E basedir (spec # specs) = register_all E basedir specs"
    by (simp add: r split: sum.splits)
  show "spec \<notin> snd ` set toRegister" if m: "meddlewareImpl E settings basedir = Inr toRegister"
  proof
    assume "spec \<in> snd ` set toRegister"
    then obtain fn where "(fn, spec) \<in> set toRegister" by auto
    from register_all_entry [OF m [unfolded meddlewareImpl_def] this]
    show False by (auto simp: r)
  qed
qed

theorem disabled_spec_not_registered_witness:
  "resolve E1 ''/app'' (Obj [(''enabled'', Bool False), (''module'', Str ''a''), (''name'', Str ''off'')])
      (Str ''off'') = Inr Undefined
   \<and> meddlewareImpl E1 settings1 ''/app''
       = Inr [(Fun 112 ''handler'' [], Obj [(''module'', Str ''b''), (''name'', Str ''on'')])]"
  using disabled_spec_not_registered [of
      "Obj [(''enabled'', Bool False), (''module'', Str ''a''), (''name'', Str ''off'')]"
      E1 "''/app''" "Str ''off''" "[]" settings1 "[]"]
  by (simp add: meddlewareImpl_def toCreate_def settings1_def mapValues_def nameObject_def
      sort_with_def compare_def priority_or_min_def MIN_VALUE_def resolve.simps has_def getp_def
      resolveImpl_def resolveImpl_config_def findModule_def findModuleMethod_def E1_def)

section \<open>Combinators: lemmas\<close>

lemma resolve_all_each:
  "resolve_all E basedir cs = Inr fns
     \<Longrightarrow> list_all2 (\<lambda>c fn. resolve E basedir (snd c) (Str (fst c)) = Inr fn) cs fns"
proof (induction cs arbitrary: fns)
  case Nil
  then show ?case by simp
next
  case (Cons c cs)
  obtain k v where c: "c = (k, v)" by (cases c)
  from Cons.prems c obtain fn fns' where
    "resolve E basedir v (Str k) = Inr fn" "resolve_all E basedir cs = Inr fns'" "fns = fn # fns'"
    by (auto split: sum.splits)
  then show ?case using Cons.IH c by simp
qed



lemma resolve_combinator:
  assumes "\<not> (has (Obj ps) ''enabled'' \<and> \<not> truthy (getp (Obj ps) ''enabled''))"
  shows "truthy (getp (Obj ps) ''parallel'') \<Longrightarrow>
           resolve E basedir (Obj ps) name =
             (case resolve_all E basedir (entries (getp (Obj ps) ''parallel'')) of
                Inl e \<Rightarrow> Inl e | Inr fns \<Rightarrow> Inr (Composite Parallel (filter truthy fns)))"
    and "\<not> truthy (getp (Obj ps) ''parallel'') \<Longrightarrow> truthy (getp (Obj ps) ''race'') \<Longrightarrow>
           resolve E basedir (Obj ps) name =
             (case resolve_all E basedir (entries (getp (Obj ps) ''race'')) of
                Inl e \<Rightarrow> Inl e | Inr fns \<Rightarrow> Inr (Composite Race (filter truthy fns)))"
    and "\<not> truthy (getp (Obj ps) ''parallel'') \<Longrightarrow> \<not> truthy (getp (Obj ps) ''race'')
         \<Longrightarrow> truthy (getp (Obj ps) ''fallback'') \<Longrightarrow>
           resolve E basedir (Obj ps) name =
             (case resolve_all E basedir
                     (entries (Arr (fallback_order (getp (Obj ps) ''fallback'')) [])) of
                Inl e \<Rightarrow> Inl e | Inr fns \<Rightarrow> Inr (Composite Fallback (filter truthy fns)))"
proof -
  have g: "getp (set_prop (Obj ps) ''name'' x) k = getp (Obj ps) k" if "k \<noteq> ''name''" for x k
    using that by (rule getp_set_prop_other)
  show "truthy (getp (Obj ps) ''parallel'') \<Longrightarrow>
           resolve E basedir (Obj ps) name =
             (case resolve_all E basedir (entries (getp (Obj ps) ''parallel'')) of
                Inl e \<Rightarrow> Inl e | Inr fns \<Rightarrow> Inr (Composite Parallel (filter truthy fns)))"
    using assms g
    by (subst resolve.simps)
       (auto simp: Let_def middleware_def simp del: set_prop.simps entries.simps split: sum.splits)
  show "\<not> truthy (getp (Obj ps) ''parallel'') \<Longrightarrow> truthy (getp (Obj ps) ''race'') \<Longrightarrow>
           resolve E basedir (Obj ps) name =
             (case resolve_all E basedir (entries (getp (Obj ps) ''race'')) of
                Inl e \<Rightarrow> Inl e | Inr fns \<Rightarrow> Inr (Composite Race (filter truthy fns)))"
    using assms g
    by (subst resolve.simps)
       (auto simp: Let_def middleware_def simp del: set_prop.simps entries.simps split: sum.splits)
  show "\<not> truthy (getp (Obj ps) ''parallel'') \<Longrightarrow> \<not> truthy (getp (Obj ps) ''race'')
         \<Longrightarrow> truthy (getp (Obj ps) ''fallback'') \<Longrightarrow>
           resolve E basedir (Obj ps) name =
             (case resolve_all E basedir
                     (entries (Arr (fallback_order (getp (Obj ps) ''fallback'')) [])) of
                Inl e \<Rightarrow> Inl e | Inr fns \<Rightarrow> Inr (Composite Fallback (filter truthy fns)))"
    using assms g
    by (subst resolve.simps)
       (auto simp: Let_def middleware_def simp del: set_prop.simps entries.simps split: sum.splits)
qed

lemma reports_append:
  "reports run (failed @ [t]) ctx = reports run failed ctx @ [(t, fst (run t (ctx_after run failed ctx)))]"
  by (induction failed arbitrary: ctx) simp_all

lemma ctx_after_append:
  "ctx_after run (failed @ [t]) ctx = snd (run t (ctx_after run failed ctx))"
  by (induction failed arbitrary: ctx) simp_all

lemma fallback_rq_step:
  "isFunction t \<Longrightarrow>
     fallback_rq (requestor run) (t # ts) failure ctx =
       (if truthy (fst (run t ctx))
        then (case fallback_rq (requestor run) ts (fst (run t ctx)) (snd (run t ctx)) of
                Inl e \<Rightarrow> Inl e
              | Inr (invoked, failure', ctx') \<Rightarrow> Inr ((t, fst (run t ctx)) # invoked, failure', ctx'))
        else Inr ([(t, fst (run t ctx))], Undefined, snd (run t ctx)))"
  by (cases "run t ctx") (auto simp: requestor_def split: sum.splits)

lemma fallback_rq_first_success:
  assumes "\<forall>x \<in> set failed. isFunction x" and "isFunction t"
    and "\<forall>p \<in> set (reports run failed ctx). truthy (snd p)"
    and "\<not> truthy (fst (run t (ctx_after run failed ctx)))"
  shows "fallback_rq (requestor run) (failed @ t # rest) failure ctx
     = Inr (reports run (failed @ [t]) ctx, Undefined, ctx_after run (failed @ [t]) ctx)"
  using assms
proof (induction failed arbitrary: failure ctx)
  case Nil
  then show ?case by (simp add: fallback_rq_step del: fallback_rq.simps)
next
  case (Cons x failed)
  then show ?case by (simp add: fallback_rq_step del: fallback_rq.simps)
qed

lemma fallback_order_not_NaN:
  assumes "\<forall>(k, v) \<in> set (entries children). getp v ''priority'' \<noteq> Num NaN"
  shows "\<forall>x \<in> set (filter isObject (mapValues children nameObject)). priority_or_min x \<noteq> NaN"
  using assms priority_not_NaN by (fastforce simp: mapValues_def priority_nameObject)

section \<open>Fallback: order of the children and execution\<close>

text \<open>
  C2, as the code has it. When no child has the priority NaN, the children of a fallback
  are in ascending order of priority when the composite is built, children of equal
  priority keeping the order of the mapping; the composite holds the resolved children,
  each the result of resolving its child, in that order. At request time the children
  are tried in the order of the list: when the children \<open>failed\<close> at its head all report an
  error and the child \<open>t\<close> after them reports none, exactly those are invoked, in that
  order and each on the context that the one before left behind, the run ends with
  success, and none of the children after \<open>t\<close> is invoked. For children of priority 2, 1
  and 3 the composite holds the child of priority 1 first; on a request where only the
  child of priority 2 would fail, the child of priority 1 alone is invoked, and on a
  request where the child of priority 1 fails, the child of priority 2 is invoked after
  it and the child of priority 3 never.
\<close>

theorem fallback_order_and_run:
  assumes "\<forall>(k, v) \<in> set (entries children). getp v ''priority'' \<noteq> Num NaN"
  shows "ascending (fallback_order children)
    \<and> filter (\<lambda>c. priority_or_min c = p) (fallback_order children)
        = filter (\<lambda>c. priority_or_min c = p) (filter isObject (mapValues children nameObject))
    \<and> (\<not> (has (Obj ps) ''enabled'' \<and> \<not> truthy (getp (Obj ps) ''enabled''))
         \<and> \<not> truthy (getp (Obj ps) ''parallel'') \<and> \<not> truthy (getp (Obj ps) ''race'')
         \<and> truthy (getp (Obj ps) ''fallback'') \<and> getp (Obj ps) ''fallback'' = children
       \<longrightarrow> resolve E basedir (Obj ps) name =
             (case resolve_all E basedir (entries (Arr (fallback_order children) [])) of
                Inl e \<Rightarrow> Inl e
              | Inr fns \<Rightarrow> Inr (Composite Fallback (filter truthy fns))))
    \<and> (resolve_all E basedir cs = Inr fns
       \<longrightarrow> list_all2 (\<lambda>c fn. resolve E basedir (snd c) (Str (fst c)) = Inr fn) cs fns)
    \<and> ((\<forall>x \<in> set failed. isFunction x) \<and> isFunction t
         \<and> (\<forall>r \<in> set (reports run failed ctx). truthy (snd r))
         \<and> \<not> truthy (fst (run t (ctx_after run failed ctx)))
       \<longrightarrow> composite_fallback run (failed @ t # rest) ctx
             = Inr (reports run (failed @ [t]) ctx, Undefined, ctx_after run (failed @ [t]) ctx))
    \<and> resolve E1 ''/app'' chain (Str ''chain'')
        = Inr (Composite Fallback
                 [Fun 112 ''handler'' [], Fun 111 ''handler'' [], Fun 113 ''handler'' []])
    \<and> composite_fallback run_chain
          [Fun 112 ''handler'' [], Fun 111 ''handler'' [], Fun 113 ''handler'' []] []
        = Inr ([(Fun 112 ''handler'' [], Undefined)], Undefined, [Fun 112 ''handler'' []])
    \<and> composite_fallback run_chain2
          [Fun 112 ''handler'' [], Fun 111 ''handler'' [], Fun 113 ''handler'' []] []
        = Inr ([(Fun 112 ''handler'' [], Str ''boom''), (Fun 111 ''handler'' [], Undefined)],
               Undefined, [Fun 112 ''handler'' [], Fun 111 ''handler'' []])"
proof (intro conjI impI)
  show "ascending (fallback_order children)"
    unfolding fallback_order_def
    using fallback_order_not_NaN [OF assms] by (rule ascending_sort)
  show "filter (\<lambda>c. priority_or_min c = p) (fallback_order children)
        = filter (\<lambda>c. priority_or_min c = p) (filter isObject (mapValues children nameObject))"
    unfolding fallback_order_def by (rule stable_sort)
  show "resolve E basedir (Obj ps) name =
             (case resolve_all E basedir (entries (Arr (fallback_order children) [])) of
                Inl e \<Rightarrow> Inl e
              | Inr fns \<Rightarrow> Inr (Composite Fallback (filter truthy fns)))"
    if "\<not> (has (Obj ps) ''enabled'' \<and> \<not> truthy (getp (Obj ps) ''enabled''))
         \<and> \<not> truthy (getp (Obj ps) ''parallel'') \<and> \<not> truthy (getp (Obj ps) ''race'')
         \<and> truthy (getp (Obj ps) ''fallback'') \<and> getp (Obj ps) ''fallback'' = children"
    using resolve_combinator(3) [of ps E basedir name] that by auto
  show "list_all2 (\<lambda>c fn. resolve E basedir (snd c) (Str (fst c)) = Inr fn) cs fns"
    if "resolve_all E basedir cs = Inr fns"
    using that by (rule resolve_all_each)
  show "composite_fallback run (failed @ t # rest) ctx
             = Inr (reports run (failed @ [t]) ctx, Undefined, ctx_after run (failed @ [t]) ctx)"
    if "(\<forall>x \<in> set failed. isFunction x) \<and> isFunction t
         \<and> (\<forall>r \<in> set (reports run failed ctx). truthy (snd r))
         \<and> \<not> truthy (fst (run t (ctx_after run failed ctx)))"
    using that fallback_rq_first_success [of failed t run ctx rest Undefined]
    by (simp add: composite_fallback_def)
  show "resolve E1 ''/app'' chain (Str ''chain'')
        = Inr (Composite Fallback
                 [Fun 112 ''handler'' [], Fun 111 ''handler'' [], Fun 113 ''handler'' []])"
    by (simp add: chain_def resolve.simps fallback_order_def mapValues_def nameObject_def
      sort_with_def compare_def priority_or_min_def index_key_def middleware_def has_def getp_def
      resolveImpl_def resolveImpl_config_def findModule_def findModuleMethod_def E1_def)
  show "composite_fallback run_chain
          [Fun 112 ''handler'' [], Fun 111 ''handler'' [], Fun 113 ''handler'' []] []
        = Inr ([(Fun 112 ''handler'' [], Undefined)], Undefined, [Fun 112 ''handler'' []])"
    by (simp add: composite_fallback_def requestor_def run_chain_def)
  show "composite_fallback run_chain2
          [Fun 112 ''handler'' [], Fun 111 ''handler'' [], Fun 113 ''handler'' []] []
        = Inr ([(Fun 112 ''handler'' [], Str ''boom''), (Fun 111 ''handler'' [], Undefined)],
               Undefined, [Fun 112 ''handler'' [], Fun 111 ''handler'' []])"
    by (simp add: composite_fallback_def requestor_def run_chain2_def)
qed

theorem fallback_order_and_run_witness:
  "ascending (fallback_order (getp chain ''fallback''))
   \<and> map (\<lambda>c. getp c ''name'') (fallback_order (getp chain ''fallback''))
        = [Str ''second'', Str ''first'', Str ''third'']
   \<and> composite_fallback run_chain2
          [Fun 112 ''handler'' [], Fun 111 ''handler'' [], Fun 113 ''handler'' []] []
        = Inr ([(Fun 112 ''handler'' [], Str ''boom''), (Fun 111 ''handler'' [], Undefined)],
               Undefined, [Fun 112 ''handler'' [], Fun 111 ''handler'' []])"
  using fallback_order_and_run [of "getp chain ''fallback''" "Fin 1" "[]" E1 "''/app''" Undefined
          "[]" "[]" "[Fun 112 ''handler'' []]" "Fun 111 ''handler'' []" run_chain2 "[]"
          "[Fun 113 ''handler'' []]"]
  by (simp add: chain_def fallback_order_def mapValues_def nameObject_def getp_def
      sort_with_def compare_def priority_or_min_def run_chain2_def)

text \<open>C2 as stated fails for a child whose priority is NaN: the comparator returns NaN
  against that child, which the sort reads as equal, and the child of priority 3 stays
  before the child of priority 1.\<close>

theorem fallback_order_nan:
  "map (\<lambda>c. getp c ''name'') (fallback_order nan_children) = [Str ''a'', Str ''b'', Str ''c'']
   \<and> map (\<lambda>c. getp c ''priority'') (fallback_order nan_children)
       = [Num (Fin 3), Num NaN, Num (Fin 1)]
   \<and> \<not> ascending (fallback_order nan_children)"
  by (simp add: nan_children_def fallback_order_def mapValues_def nameObject_def getp_def
      sort_with_def compare_def priority_or_min_def ascending_def)

section \<open>Children of a combinator: properties\<close>




end
